theory Spec2Isabelle
  imports Complex_Main
begin

section \<open>Numbers of the program\<close>

text \<open>
  The coordinates and distances of \<^verbatim>\<open>parcels_analysis.py\<close> are IEEE doubles
  (elements of numpy arrays). The model keeps the special values the code depends on
  (\<^verbatim>\<open>np.nan\<close>, \<^verbatim>\<open>np.inf\<close>) and their comparison rules, and computes on
  finite values with exact real arithmetic: rounding, overflow and the sign of zero are
  not modelled.
\<close>

datatype pyfloat = NaN | PInf | NInf | Fin real

fun isnan :: "pyfloat \<Rightarrow> bool" where
  "isnan NaN = True"
| "isnan _ = False"

fun isfinite :: "pyfloat \<Rightarrow> bool" where
  "isfinite (Fin _) = True"
| "isfinite _ = False"

text \<open>Comparisons: every comparison with NaN is false, except \<^verbatim>\<open>!=\<close>.\<close>

fun f_le :: "pyfloat \<Rightarrow> pyfloat \<Rightarrow> bool" where
  "f_le NaN _ = False"
| "f_le _ NaN = False"
| "f_le NInf _ = True"
| "f_le _ PInf = True"
| "f_le PInf _ = False"
| "f_le _ NInf = False"
| "f_le (Fin a) (Fin b) = (a \<le> b)"

fun f_lt :: "pyfloat \<Rightarrow> pyfloat \<Rightarrow> bool" where
  "f_lt NaN _ = False"
| "f_lt _ NaN = False"
| "f_lt PInf _ = False"
| "f_lt _ NInf = False"
| "f_lt NInf _ = True"
| "f_lt _ PInf = True"
| "f_lt (Fin a) (Fin b) = (a < b)"

fun f_eq :: "pyfloat \<Rightarrow> pyfloat \<Rightarrow> bool" where
  "f_eq NaN _ = False"
| "f_eq _ NaN = False"
| "f_eq a b = (a = b)"

definition f_ne :: "pyfloat \<Rightarrow> pyfloat \<Rightarrow> bool" where
  "f_ne a b = (\<not> f_eq a b)"

text \<open>Arithmetic: NaN is absorbing, the infinities follow IEEE 754.\<close>

fun f_neg :: "pyfloat \<Rightarrow> pyfloat" where
  "f_neg NaN = NaN"
| "f_neg PInf = NInf"
| "f_neg NInf = PInf"
| "f_neg (Fin a) = Fin (- a)"

fun f_add :: "pyfloat \<Rightarrow> pyfloat \<Rightarrow> pyfloat" where
  "f_add NaN _ = NaN"
| "f_add _ NaN = NaN"
| "f_add PInf NInf = NaN"
| "f_add NInf PInf = NaN"
| "f_add PInf _ = PInf"
| "f_add _ PInf = PInf"
| "f_add NInf _ = NInf"
| "f_add _ NInf = NInf"
| "f_add (Fin a) (Fin b) = Fin (a + b)"

definition f_sub :: "pyfloat \<Rightarrow> pyfloat \<Rightarrow> pyfloat" where
  "f_sub a b = f_add a (f_neg b)"

definition inf_signed :: "bool \<Rightarrow> pyfloat" where
  "inf_signed positive = (if positive then PInf else NInf)"

fun f_mul :: "pyfloat \<Rightarrow> pyfloat \<Rightarrow> pyfloat" where
  "f_mul NaN _ = NaN"
| "f_mul _ NaN = NaN"
| "f_mul PInf PInf = PInf"
| "f_mul PInf NInf = NInf"
| "f_mul NInf PInf = NInf"
| "f_mul NInf NInf = PInf"
| "f_mul PInf (Fin b) = (if b = 0 then NaN else inf_signed (0 < b))"
| "f_mul NInf (Fin b) = (if b = 0 then NaN else inf_signed (b < 0))"
| "f_mul (Fin a) PInf = (if a = 0 then NaN else inf_signed (0 < a))"
| "f_mul (Fin a) NInf = (if a = 0 then NaN else inf_signed (a < 0))"
| "f_mul (Fin a) (Fin b) = Fin (a * b)"

text \<open>
  Division of numpy doubles: a zero divisor gives an infinity or NaN (a warning, not an
  exception). The zero is taken as \<open>+0\<close>.
\<close>

fun f_div :: "pyfloat \<Rightarrow> pyfloat \<Rightarrow> pyfloat" where
  "f_div NaN _ = NaN"
| "f_div _ NaN = NaN"
| "f_div PInf PInf = NaN"
| "f_div PInf NInf = NaN"
| "f_div NInf PInf = NaN"
| "f_div NInf NInf = NaN"
| "f_div (Fin a) PInf = Fin 0"
| "f_div (Fin a) NInf = Fin 0"
| "f_div PInf (Fin b) = inf_signed (0 \<le> b)"
| "f_div NInf (Fin b) = inf_signed (b < 0)"
| "f_div (Fin a) (Fin b) =
     (if b = 0 then (if a = 0 then NaN else inf_signed (0 < a)) else Fin (a / b))"

section \<open>Segment geometry\<close>

text \<open>
  \<^verbatim>\<open>line_seg\<close> returns a dictionary with the fixed keys
  \<^verbatim>\<open>x1, y1, x2, y2, dom, rng, slope\<close>: a record. The key \<^verbatim>\<open>dom\<close> is the
  field \<open>dom_seg\<close>.
\<close>

record line =
  x1 :: pyfloat
  y1 :: pyfloat
  x2 :: pyfloat
  y2 :: pyfloat
  dom_seg :: "pyfloat \<times> pyfloat"
  rng :: "pyfloat \<times> pyfloat"
  slope :: pyfloat

definition line_seg :: "pyfloat \<Rightarrow> pyfloat \<Rightarrow> pyfloat \<Rightarrow> pyfloat \<Rightarrow> line" where
  "line_seg a1 b1 a2 b2 =
     \<lparr> x1 = a1, y1 = b1, x2 = a2, y2 = b2,
       dom_seg = (if f_le a1 a2 then (a1, a2) else (a2, a1)),
       rng = (if f_le b1 b2 then (b1, b2) else (b2, b1)),
       slope = (if f_ne (f_sub a1 a2) (Fin 0) then f_div (f_sub b1 b2) (f_sub a1 a2) else NaN) \<rparr>"

definition valid_point :: "pyfloat \<Rightarrow> pyfloat \<Rightarrow> line \<Rightarrow> bool" where
  "valid_point x y line =
     (let in_dom = (f_le (fst (dom_seg line)) x \<and> f_le x (snd (dom_seg line)));
          in_range = (f_le (fst (rng line)) y \<and> f_le y (snd (rng line)))
      in in_dom \<and> in_range)"

definition intersection_info :: "pyfloat \<Rightarrow> pyfloat \<Rightarrow> line \<Rightarrow> pyfloat \<times> pyfloat" where
  "intersection_info x y line =
     (if isnan (slope line) then (x1 line, y)
      else if f_eq (slope line) (Fin 0) then (x, y1 line)
      else
        let norm_slope = f_div (Fin (- 1)) (slope line);
            slope_d = f_sub norm_slope (slope line);
            int_d = f_sub (f_add (f_mul (slope line) (f_neg (x1 line))) (y1 line))
                          (f_add (f_mul norm_slope (f_neg x)) y);
            x_int = f_div int_d slope_d;
            y_int = f_add (f_mul norm_slope (f_sub x_int x)) y
        in (x_int, y_int))"

section \<open>Collaborators outside the source file\<close>

datatype error = ValueError string | IndexError

text \<open>
  numpy indexing \<^verbatim>\<open>a[i]\<close> of a one-dimensional array: a negative index counts from
  the end, an index out of range raises IndexError.
\<close>

definition np_index :: "'a list \<Rightarrow> int \<Rightarrow> error + 'a" where
  "np_index a i =
     (if 0 \<le> i \<and> i < int (length a) then Inr (a ! nat i)
      else if - int (length a) \<le> i \<and> i < 0 then Inr (a ! nat (int (length a) + i))
      else Inl IndexError)"

text \<open>
  \<^verbatim>\<open>np.array([lats, lons]).T\<close>: the rows \<open>(lats[i], lons[i])\<close>. Two sequences of
  different lengths give no two-dimensional array (numpy raises ValueError, or builds an
  object array that the index constructor rejects).
\<close>

definition np_array_T :: "pyfloat list \<Rightarrow> pyfloat list \<Rightarrow> error + (pyfloat \<times> pyfloat) list" where
  "np_array_T lats lons =
     (if length lats = length lons then Inr (zip lats lons)
      else Inl (ValueError ''inhomogeneous shape''))"

text \<open>
  \<^verbatim>\<open>utils.haversine(lat1, lat2, lon1, lon2)\<close> belongs to the repository but its
  module is not among the sources. The operations of the track take it as the parameter
  \<open>hav\<close>; the definition below is the instance used at concrete inputs.
\<close>

definition radians :: "real \<Rightarrow> real" where
  "radians d = d * pi / 180"

text \<open>
  Modelled from the spec: \<^verbatim>\<open>utils.haversine\<close> is missing. The great-circle distance
  by the haversine formula on a sphere of radius \<open>R\<close>; non-finite coordinates give NaN.
\<close>

fun haversine :: "real \<Rightarrow> pyfloat \<Rightarrow> pyfloat \<Rightarrow> pyfloat \<Rightarrow> pyfloat \<Rightarrow> pyfloat" where
  "haversine R (Fin lat1) (Fin lat2) (Fin lon1) (Fin lon2) =
     Fin (2 * R * arcsin (sqrt ((sin (radians (lat2 - lat1) / 2))\<^sup>2
            + cos (radians lat1) * cos (radians lat2) * (sin (radians (lon2 - lon1) / 2))\<^sup>2)))"
| "haversine R _ _ _ _ = NaN"

text \<open>
  \<^verbatim>\<open>scipy.spatial.KDTree\<close> is an external library. The constructor of the track
  takes the index constructor as the parameter \<open>build\<close> and the query operation takes
  the lookup as the parameter \<open>query\<close>; either may raise. The two definitions below are
  the instance used at concrete inputs. They follow the documented behaviour of the
  current library: non-finite data and non-finite query points are rejected with
  ValueError, an empty point set is accepted, and a lookup in an empty index reports the
  index \<open>n\<close> (no neighbour). Among equally near points the first is taken.
\<close>

definition KDTree :: "(pyfloat \<times> pyfloat) list \<Rightarrow> error + (pyfloat \<times> pyfloat) list" where
  "KDTree data =
     (if list_all (\<lambda>p. isfinite (fst p) \<and> isfinite (snd p)) data then Inr data
      else Inl (ValueError ''data must be finite, check for nan or inf values''))"

fun sq_dist :: "pyfloat \<times> pyfloat \<Rightarrow> pyfloat \<times> pyfloat \<Rightarrow> real" where
  "sq_dist (Fin a, Fin b) (Fin c, Fin d) = (a - c)\<^sup>2 + (b - d)\<^sup>2"
| "sq_dist _ _ = 0"

fun nearest_from :: "pyfloat \<times> pyfloat \<Rightarrow> (nat \<times> (pyfloat \<times> pyfloat)) list \<Rightarrow> nat \<times> real \<Rightarrow> nat \<times> real" where
  "nearest_from x [] best = best"
| "nearest_from x ((i, p) # rest) best =
     nearest_from x rest (if sq_dist x p < snd best then (i, sq_dist x p) else best)"

definition kdtree_query :: "(pyfloat \<times> pyfloat) list \<Rightarrow> pyfloat list \<Rightarrow> error + int" where
  "kdtree_query data x =
     (case x of
        [Fin lat, Fin lon] \<Rightarrow>
          (case data of
             [] \<Rightarrow> Inr 0
           | p # rest \<Rightarrow>
               Inr (int (fst (nearest_from (Fin lat, Fin lon) (enumerate 1 rest)
                                (0, sq_dist (Fin lat, Fin lon) p)))))
      | _ \<Rightarrow> Inl (ValueError ''x must be finite, check for nan or inf values''))"

section \<open>The track: ParticlePlotFeature\<close>

record 'k track =
  lats :: "pyfloat list"
  lons :: "pyfloat list"
  points :: "(pyfloat \<times> pyfloat) list"
  kdtree :: 'k
  labels :: "string list option"
  segments :: "line list option"
  track_dist :: pyfloat

text \<open>
  The segment array of the constructor: \<^verbatim>\<open>np.empty(len(lats) - 1)\<close> raises ValueError
  on a negative length; the loop then assigns every entry \<open>i\<close> of
  \<open>range(0, len(points) - 1)\<close>.
\<close>

definition make_segments :: "pyfloat list \<Rightarrow> pyfloat list \<Rightarrow> (pyfloat \<times> pyfloat) list \<Rightarrow> error + line list" where
  "make_segments lats' lons' points' =
     (if int (length lats') - 1 < 0 then Inl (ValueError ''negative dimensions are not allowed'')
      else Inr (map (\<lambda>i. line_seg (lons' ! i) (lats' ! i) (lons' ! (i + 1)) (lats' ! (i + 1)))
                    [0 ..< length points' - 1]))"

definition init ::
  "((pyfloat \<times> pyfloat) list \<Rightarrow> error + 'k) \<Rightarrow> pyfloat list \<Rightarrow> pyfloat list \<Rightarrow>
     string list option \<Rightarrow> bool \<Rightarrow> pyfloat \<Rightarrow> error + 'k track" where
  "init build lats' lons' labels' segments' track_dist' =
     (case np_array_T lats' lons' of
        Inl e \<Rightarrow> Inl e
      | Inr points' \<Rightarrow>
     (case build points' of
        Inl e \<Rightarrow> Inl e
      | Inr kdtree' \<Rightarrow>
     (if (case labels' of None \<Rightarrow> False | Some ls \<Rightarrow> length ls \<noteq> length lats')
      then Inl (ValueError ''Labels must be the same length as lats/lons'')
      else
     (case (if segments' then map_sum id Some (make_segments lats' lons' points') else Inr None) of
        Inl e \<Rightarrow> Inl e
      | Inr segs \<Rightarrow>
          Inr \<lparr> lats = lats', lons = lons', points = points', kdtree = kdtree',
                labels = labels', segments = segs, track_dist = track_dist' \<rparr>))))"

text \<open>
  The methods take the object \<open>self\<close> and return their result together with the object
  as they leave it: the result is \<open>Inl\<close> of the exception raised or \<open>Inr\<close> of the value
  returned.
\<close>

type_synonym hav_fun = "pyfloat \<Rightarrow> pyfloat \<Rightarrow> pyfloat \<Rightarrow> pyfloat \<Rightarrow> pyfloat"

text \<open>
  \<^verbatim>\<open>count_near\<close>: the inner loop over \<open>enumerate(self.points)\<close> and the outer loop
  over \<open>zip(p_lats, p_lons)\<close>. The array \<open>counts\<close> is local; its entries are doubles
  with integral values, modelled as integers.
\<close>

fun count_near_points ::
  "hav_fun \<Rightarrow> pyfloat \<Rightarrow> pyfloat \<times> pyfloat \<Rightarrow> (nat \<times> (pyfloat \<times> pyfloat)) list \<Rightarrow> int list \<Rightarrow> error + int list" where
  "count_near_points hav td p_point [] counts = Inr counts"
| "count_near_points hav td p_point ((i, point) # rest) counts =
     (if f_le (hav (fst p_point) (fst point) (snd p_point) (snd point)) td
      then (if i < length counts
            then count_near_points hav td p_point rest (counts[i := counts ! i + 1])
            else Inl IndexError)
      else count_near_points hav td p_point rest counts)"

fun count_near_batch ::
  "hav_fun \<Rightarrow> pyfloat \<Rightarrow> (pyfloat \<times> pyfloat) list \<Rightarrow> (pyfloat \<times> pyfloat) list \<Rightarrow> int list \<Rightarrow> error + int list" where
  "count_near_batch hav td pts [] counts = Inr counts"
| "count_near_batch hav td pts (p_point # rest) counts =
     (case count_near_points hav td p_point (enumerate 0 pts) counts of
        Inl e \<Rightarrow> Inl e
      | Inr counts' \<Rightarrow> count_near_batch hav td pts rest counts')"

definition count_near ::
  "hav_fun \<Rightarrow> 'k track \<Rightarrow> pyfloat list \<Rightarrow> pyfloat list \<Rightarrow> (error + int list) \<times> 'k track" where
  "count_near hav self p_lats p_lons =
     (count_near_batch hav (track_dist self) (points self) (zip p_lats p_lons)
        (replicate (length (lats self)) 0),
      self)"

text \<open>
  \<^verbatim>\<open>get_closest_dist\<close>. The list \<open>seg_check\<close> holds \<open>segments[closest_idx]\<close> when
  \<open>closest_idx < len(points) - 1\<close>, then \<open>segments[closest_idx - 1]\<close> when
  \<open>closest_idx > 0\<close>: \<open>seg_check_indices\<close> are the indices read, in this order. The loop
  over the list is a fold of its body \<open>seg_dist\<close>, from \<open>least_dist = np.inf\<close>.
\<close>

definition seg_check_indices :: "nat \<Rightarrow> int \<Rightarrow> int list" where
  "seg_check_indices n closest_idx =
     (if closest_idx < int n - 1 then [closest_idx] else [])
     @ (if closest_idx > 0 then [closest_idx - 1] else [])"

fun np_index_all :: "'a list \<Rightarrow> int list \<Rightarrow> error + 'a list" where
  "np_index_all a [] = Inr []"
| "np_index_all a (i # rest) =
     (case np_index a i of
        Inl e \<Rightarrow> Inl e
      | Inr v \<Rightarrow> map_sum id ((#) v) (np_index_all a rest))"

definition seg_check :: "line list \<Rightarrow> nat \<Rightarrow> int \<Rightarrow> error + line list" where
  "seg_check segs n closest_idx = np_index_all segs (seg_check_indices n closest_idx)"

definition seg_dist :: "hav_fun \<Rightarrow> pyfloat \<Rightarrow> pyfloat \<Rightarrow> line \<Rightarrow> pyfloat \<Rightarrow> pyfloat" where
  "seg_dist hav lat lon seg least_dist =
     (let (lon_int, lat_int) = intersection_info lon lat seg
      in if valid_point lon_int lat_int seg
         then (let dist = hav lat lat_int lon lon_int
               in if f_lt dist least_dist then dist else least_dist)
         else least_dist)"

definition get_closest_dist ::
  "hav_fun \<Rightarrow> ('k \<Rightarrow> pyfloat list \<Rightarrow> error + int) \<Rightarrow> 'k track \<Rightarrow> pyfloat \<Rightarrow> pyfloat \<Rightarrow>
     (error + pyfloat) \<times> 'k track" where
  "get_closest_dist hav query self lat lon =
     ((case query (kdtree self) [lat, lon] of
         Inl e \<Rightarrow> Inl e
       | Inr closest_idx \<Rightarrow>
      (case (case segments self of
               None \<Rightarrow> Inr PInf
             | Some segs \<Rightarrow>
                 map_sum id (\<lambda>sc. fold (seg_dist hav lat lon) sc PInf)
                   (seg_check segs (length (points self)) closest_idx)) of
         Inl e \<Rightarrow> Inl e
       | Inr least_dist \<Rightarrow>
      (case np_index (points self) closest_idx of
         Inl e \<Rightarrow> Inl e
       | Inr pnt \<Rightarrow>
           (let dist = hav lat (fst pnt) lon (snd pnt)
            in Inr (if f_lt dist least_dist then dist else least_dist))))),
      self)"

section \<open>Abbreviations for the source, notions of the specification\<close>

text \<open>
  Two abbreviations for what the source computes: \<open>least_upd\<close> is its expression
  \<^verbatim>\<open>dist if dist < least_dist else least_dist\<close>, and \<open>checked_segments\<close> is the list
  \<open>seg_check\<close> of \<^verbatim>\<open>get_closest_dist\<close> when every index is in range.
\<close>

definition least_upd :: "pyfloat \<Rightarrow> pyfloat \<Rightarrow> pyfloat" where
  "least_upd d least_dist = (if f_lt d least_dist then d else least_dist)"

definition checked_segments :: "line list option \<Rightarrow> nat \<Rightarrow> line list" where
  "checked_segments segs_opt idx =
     (case segs_opt of
        None \<Rightarrow> []
      | Some segs \<Rightarrow> (if idx < length segs then [segs ! idx] else [])
                     @ (if 0 < idx then [segs ! (idx - 1)] else []))"

text \<open>
  The other definitions of this section do not come from the source: they name what the
  specification talks about (the least of a list of distances, the segments adjacent to
  a waypoint, the number of positions near a waypoint), so that the operations of the
  source can be compared with them.
\<close>

definition is_least :: "pyfloat \<Rightarrow> pyfloat list \<Rightarrow> bool" where
  "is_least r ds = (r \<in> set ds \<and> list_all (f_le r) ds)"

definition projection_dist :: "hav_fun \<Rightarrow> pyfloat \<Rightarrow> pyfloat \<Rightarrow> line \<Rightarrow> pyfloat" where
  "projection_dist hav lat lon seg =
     hav lat (snd (intersection_info lon lat seg)) lon (fst (intersection_info lon lat seg))"

definition projection_valid :: "pyfloat \<Rightarrow> pyfloat \<Rightarrow> line \<Rightarrow> bool" where
  "projection_valid lat lon seg =
     valid_point (fst (intersection_info lon lat seg)) (snd (intersection_info lon lat seg)) seg"

definition adjacent_segments :: "line list \<Rightarrow> nat \<Rightarrow> line list" where
  "adjacent_segments segs idx =
     (if idx > 0 then [segs ! (idx - 1)] else []) @ (if idx < length segs then [segs ! idx] else [])"

definition candidate_dists :: "hav_fun \<Rightarrow> pyfloat \<Rightarrow> pyfloat \<Rightarrow> line list \<Rightarrow> pyfloat list" where
  "candidate_dists hav lat lon segs =
     map (projection_dist hav lat lon) (filter (projection_valid lat lon) segs)"

definition nearest_dist :: "hav_fun \<Rightarrow> 'k track \<Rightarrow> pyfloat \<Rightarrow> pyfloat \<Rightarrow> nat \<Rightarrow> pyfloat" where
  "nearest_dist hav self lat lon idx = hav lat (lats self ! idx) lon (lons self ! idx)"

definition segment_dists :: "hav_fun \<Rightarrow> 'k track \<Rightarrow> pyfloat \<Rightarrow> pyfloat \<Rightarrow> nat \<Rightarrow> pyfloat list" where
  "segment_dists hav self lat lon idx =
     (case segments self of
        None \<Rightarrow> []
      | Some segs \<Rightarrow> candidate_dists hav lat lon (adjacent_segments segs idx))"

definition is_near :: "hav_fun \<Rightarrow> pyfloat \<Rightarrow> pyfloat \<times> pyfloat \<Rightarrow> pyfloat \<times> pyfloat \<Rightarrow> bool" where
  "is_near hav td point p_point = f_le (hav (fst p_point) (fst point) (snd p_point) (snd point)) td"

definition near_count :: "hav_fun \<Rightarrow> pyfloat \<Rightarrow> (pyfloat \<times> pyfloat) list \<Rightarrow> pyfloat \<times> pyfloat \<Rightarrow> int" where
  "near_count hav td positions point = int (length (filter (is_near hav td point) positions))"

definition vertical :: "line \<Rightarrow> bool" where
  "vertical seg = isnan (slope seg)"

text \<open>
  \<open>projectPoint\<close> as the specification words it: the vertical case, the case of slope
  exactly 0, and the intersection of the two lines with \<open>m_perp = -1/m\<close>.
\<close>

definition projectPoint :: "pyfloat \<Rightarrow> pyfloat \<Rightarrow> line \<Rightarrow> pyfloat \<times> pyfloat" where
  "projectPoint x y seg =
     (if vertical seg then (x1 seg, y)
      else if f_eq (slope seg) (Fin 0) then (x, y1 seg)
      else
        let m = slope seg;
            m_perp = f_div (Fin (- 1)) m;
            delta_m = f_sub m_perp m;
            delta_intercept = f_sub (f_add (f_mul m (f_neg (x1 seg))) (y1 seg))
                                    (f_add (f_mul m_perp (f_neg x)) y);
            xi = f_div delta_intercept delta_m;
            yi = f_add (f_mul m_perp (f_sub xi x)) y
        in (xi, yi))"

text \<open>Concrete tracks, as the constructor builds them with the index above.\<close>

definition two_point_track :: "(pyfloat \<times> pyfloat) list track" where
  "two_point_track =
     \<lparr> lats = [Fin 0, Fin 0], lons = [Fin 0, Fin 1], points = [(Fin 0, Fin 0), (Fin 0, Fin 1)],
       kdtree = [(Fin 0, Fin 0), (Fin 0, Fin 1)], labels = None,
       segments = Some [line_seg (Fin 0) (Fin 0) (Fin 1) (Fin 0)], track_dist = Fin 500 \<rparr>"

definition one_point_track :: "(pyfloat \<times> pyfloat) list track" where
  "one_point_track =
     \<lparr> lats = [Fin 0], lons = [Fin 0], points = [(Fin 0, Fin 0)], kdtree = [(Fin 0, Fin 0)],
       labels = None, segments = Some [], track_dist = Fin 500 \<rparr>"

definition empty_track :: "(pyfloat \<times> pyfloat) list track" where
  "empty_track =
     \<lparr> lats = [], lons = [], points = [], kdtree = [], labels = None, segments = None,
       track_dist = Fin 0 \<rparr>"

section \<open>Properties of the numbers, the constructor and the loops\<close>

lemma f_le_refl: "\<not> isnan a \<Longrightarrow> f_le a a"
  by (cases a) auto

lemma f_le_trans: "f_le a b \<Longrightarrow> f_le b c \<Longrightarrow> f_le a c"
  by (cases a; cases b; cases c) auto

lemma f_lt_le: "f_lt a b \<Longrightarrow> f_le a b"
  by (cases a; cases b) auto

lemma not_f_lt_le: "\<not> f_lt a b \<Longrightarrow> \<not> isnan a \<Longrightarrow> \<not> isnan b \<Longrightarrow> f_le b a"
  by (cases a; cases b) auto

lemma not_f_lt_PInf: "\<not> f_lt a PInf \<Longrightarrow> \<not> isnan a \<Longrightarrow> a = PInf"
  by (cases a) auto

lemma f_le_PInf: "\<not> isnan a \<Longrightarrow> f_le a PInf"
  by (cases a) auto

lemma seg_dist_least_upd:
  "seg_dist hav lat lon seg l =
     (if projection_valid lat lon seg then least_upd (projection_dist hav lat lon seg) l else l)"
  by (simp add: seg_dist_def projection_valid_def projection_dist_def least_upd_def
      split: prod.splits)

lemma fold_seg_dist:
  "fold (seg_dist hav lat lon) sc l = fold least_upd (candidate_dists hav lat lon sc) l"
  by (induction sc arbitrary: l) (simp_all add: candidate_dists_def seg_dist_least_upd)

lemma least_upd_cases: "least_upd d l = d \<or> least_upd d l = l"
  by (simp add: least_upd_def)

lemma least_upd_le:
  assumes "\<not> isnan d" "\<not> isnan l"
  shows "f_le (least_upd d l) d" "f_le (least_upd d l) l" "\<not> isnan (least_upd d l)"
  using assms by (auto simp: least_upd_def f_lt_le not_f_lt_le f_le_refl)

lemma fold_least_upd:
  assumes "list_all (\<lambda>d. \<not> isnan d) ds" "\<not> isnan l"
  shows "\<not> isnan (fold least_upd ds l) \<and> f_le (fold least_upd ds l) l
         \<and> list_all (f_le (fold least_upd ds l)) ds
         \<and> (fold least_upd ds l = l \<or> fold least_upd ds l \<in> set ds)"
  using assms
proof (induction ds arbitrary: l)
  case Nil
  then show ?case by (simp add: f_le_refl)
next
  case (Cons d ds)
  let ?l' = "least_upd d l"
  let ?r = "fold least_upd ds ?l'"
  have d: "\<not> isnan d" and ds: "list_all (\<lambda>d. \<not> isnan d) ds"
    using Cons.prems(1) by simp_all
  have l': "\<not> isnan ?l'" "f_le ?l' d" "f_le ?l' l"
    using least_upd_le [OF d Cons.prems(2)] by simp_all
  have ih: "\<not> isnan ?r" "f_le ?r ?l'" "list_all (f_le ?r) ds" "?r = ?l' \<or> ?r \<in> set ds"
    using Cons.IH [OF ds l'(1)] by simp_all
  have "f_le ?r l" "f_le ?r d"
    using ih(2) l'(2,3) f_le_trans by blast+
  moreover have "?r = l \<or> ?r \<in> set (d # ds)"
    using ih(4) least_upd_cases [of d l] by auto
  ultimately show ?case
    using ih(1,3) by simp
qed

lemma init_Inr:
  assumes "init build lats' lons' labels' segments' td = Inr t"
  shows "length lats' = length lons'" "lats t = lats'" "lons t = lons'" "points t = zip lats' lons'"
    "labels t = labels'" "track_dist t = td" "build (zip lats' lons') = Inr (kdtree t)"
    "segments' \<Longrightarrow> lats' \<noteq> [] \<and> segments t = Some (map (\<lambda>i. line_seg (lons' ! i) (lats' ! i) (lons' ! (i + 1)) (lats' ! (i + 1))) [0 ..< length lats' - 1])"
    "\<not> segments' \<Longrightarrow> segments t = None"
    "case labels' of None \<Rightarrow> True | Some ls \<Rightarrow> length ls = length lats'"
  using assms
  by (auto simp: init_def np_array_T_def make_segments_def split: sum.splits if_splits option.splits)

lemma np_index_nat: "i < length a \<Longrightarrow> np_index a (int i) = Inr (a ! i)"
  by (simp add: np_index_def)

lemma seg_check_in_range:
  assumes "idx < n" "length segs = n - 1"
  shows "seg_check segs n (int idx) =
           Inr ((if idx < n - 1 then [segs ! idx] else []) @ (if 0 < idx then [segs ! (idx - 1)] else []))"
proof -
  have a: "idx < n - 1 \<Longrightarrow> np_index segs (int idx) = Inr (segs ! idx)"
    using assms by (simp add: np_index_nat)
  have b: "0 < idx \<Longrightarrow> np_index segs (int idx - 1) = Inr (segs ! (idx - 1))"
    using assms np_index_nat [of "idx - 1" segs] by simp
  have c: "(int idx < int n - 1) = (idx < n - 1)"
    using assms by auto
  show ?thesis
  proof (cases "idx < n - 1"; cases "0 < idx")
  qed (use a b c in \<open>simp_all add: seg_check_def seg_check_indices_def del: of_nat_eq_0_iff\<close>)
qed

lemma valid_point_finite:
  "valid_point x y (line_seg (Fin a1) (Fin b1) (Fin a2) (Fin b2)) \<Longrightarrow> isfinite x \<and> isfinite y"
  by (cases x; cases y) (auto simp: valid_point_def line_seg_def split: if_splits)

lemma candidate_dists_not_nan:
  assumes hav: "\<And>a b c d. isfinite a \<Longrightarrow> isfinite b \<Longrightarrow> isfinite c \<Longrightarrow> isfinite d \<Longrightarrow> \<not> isnan (hav a b c d)"
    and fin: "isfinite lat" "isfinite lon"
    and segs: "\<And>s. s \<in> set sc \<Longrightarrow> \<exists>a1 b1 a2 b2. s = line_seg (Fin a1) (Fin b1) (Fin a2) (Fin b2)"
  shows "list_all (\<lambda>d. \<not> isnan d) (candidate_dists hav lat lon sc)"
proof -
  have "\<not> isnan (projection_dist hav lat lon s)" if mem: "s \<in> set sc" and val: "projection_valid lat lon s" for s
  proof -
    obtain a1 b1 a2 b2 where s: "s = line_seg (Fin a1) (Fin b1) (Fin a2) (Fin b2)"
      using segs [OF mem] by blast
    have "isfinite (fst (intersection_info lon lat s)) \<and> isfinite (snd (intersection_info lon lat s))"
      using val valid_point_finite unfolding projection_valid_def s by blast
    then show ?thesis
      unfolding projection_dist_def using hav fin by blast
  qed
  then show ?thesis
    by (simp add: candidate_dists_def list_all_iff)
qed

lemma is_finite_nth: "list_all isfinite xs \<Longrightarrow> i < length xs \<Longrightarrow> \<exists>a. xs ! i = Fin a"
proof -
  assume "list_all isfinite xs" "i < length xs"
  then have "isfinite (xs ! i)" by (simp add: list_all_length)
  then show ?thesis by (cases "xs ! i") auto
qed

lemma get_closest_dist_value:
  assumes q: "query (kdtree self) [lat, lon] = Inr (int idx)"
    and idx: "idx < length (points self)"
    and segs: "\<And>segs. segments self = Some segs \<Longrightarrow> length segs = length (points self) - 1"
  shows "fst (get_closest_dist hav query self lat lon) =
           Inr (least_upd (hav lat (fst (points self ! idx)) lon (snd (points self ! idx)))
                  (fold least_upd
                     (candidate_dists hav lat lon (checked_segments (segments self) idx)) PInf))"
proof (cases "segments self")
  case None
  then show ?thesis
    using q idx
    by (simp add: get_closest_dist_def np_index_nat least_upd_def checked_segments_def
        candidate_dists_def)
next
  case (Some sg)
  have len: "length sg = length (points self) - 1"
    using segs [OF Some] .
  have sc: "seg_check sg (length (points self)) (int idx) = Inr (checked_segments (Some sg) idx)"
    using seg_check_in_range [OF idx len] len by (simp add: checked_segments_def)
  show ?thesis
    using q idx
    by (simp add: get_closest_dist_def Some sc np_index_nat least_upd_def [symmetric]
        fold_seg_dist)
qed

lemma set_candidate_dists:
  "set (candidate_dists hav lat lon sc) = projection_dist hav lat lon ` {s \<in> set sc. projection_valid lat lon s}"
  by (simp add: candidate_dists_def)

lemma set_checked_segments:
  "set (checked_segments (Some segs) idx) = set (adjacent_segments segs idx)"
  by (auto simp: checked_segments_def adjacent_segments_def)

lemma finite_segments:
  assumes "list_all isfinite lats'" "list_all isfinite lons'" "length lats' = length lons'"
    and "s \<in> set (map (\<lambda>i. line_seg (lons' ! i) (lats' ! i) (lons' ! (i + 1)) (lats' ! (i + 1))) [0 ..< length lats' - 1])"
  shows "\<exists>a1 b1 a2 b2. s = line_seg (Fin a1) (Fin b1) (Fin a2) (Fin b2)"
proof -
  obtain i where i: "i < length lats' - 1" "s = line_seg (lons' ! i) (lats' ! i) (lons' ! (i + 1)) (lats' ! (i + 1))"
    using assms(4) by auto
  have "i < length lats'" "i + 1 < length lats'" "i < length lons'" "i + 1 < length lons'"
    using i(1) assms(3) by auto
  then show ?thesis
    using is_finite_nth [OF assms(1)] is_finite_nth [OF assms(2)] i(2) by metis
qed

lemma haversine_not_nan:
  "isfinite a \<Longrightarrow> isfinite b \<Longrightarrow> isfinite c \<Longrightarrow> isfinite d \<Longrightarrow> \<not> isnan (haversine R a b c d)"
  by (cases a; cases b; cases c; cases d) simp_all

lemma haversine_nan:
  "isnan a \<or> isnan c \<Longrightarrow> isnan (haversine R a b c d)"
  by (cases a; cases b; cases c; cases d) simp_all

lemma haversine_same: "haversine R (Fin a) (Fin a) (Fin c) (Fin c) = Fin 0"
  by (simp add: radians_def)

lemma haversine_one_degree:
  "haversine R (Fin 0) (Fin 0) (Fin 0) (Fin 1) = Fin (R * pi / 180)"
proof -
  have s: "0 \<le> sin (pi / 360)"
    by (rule sin_ge_zero) (use pi_gt_zero in simp_all)
  have "arcsin (sqrt ((sin (pi / 360))\<^sup>2)) = arcsin (sin (pi / 360))"
    using s by simp
  also have "\<dots> = pi / 360"
    by (rule arcsin_sin) (use pi_gt_zero in simp_all)
  finally show ?thesis
    by (simp add: radians_def)
qed

lemma init_two_point_track:
  "init KDTree [Fin 0, Fin 0] [Fin 0, Fin 1] None True (Fin 500) = Inr two_point_track"
  by (simp add: init_def np_array_T_def KDTree_def make_segments_def two_point_track_def)

lemma init_one_point_track:
  "init KDTree [Fin 0] [Fin 0] None True (Fin 500) = Inr one_point_track"
  by (simp add: init_def np_array_T_def KDTree_def make_segments_def one_point_track_def)

lemma query_two_point_track:
  "kdtree_query (kdtree two_point_track) [Fin 0, Fin 0] = Inr (int 0)"
  by (simp add: kdtree_query_def two_point_track_def enumerate_eq_zip)

lemma query_one_point_track:
  "kdtree_query (kdtree one_point_track) [Fin 1, Fin 1] = Inr (int 0)"
  by (simp add: kdtree_query_def one_point_track_def)

lemma least_upd_nan: "isnan d \<Longrightarrow> least_upd d l = l"
  by (cases d) (simp_all add: least_upd_def)

lemma fold_seg_dist_nan:
  assumes "\<And>b d. isnan (hav lat b lon d)"
  shows "fold (seg_dist hav lat lon) sc l = l"
  by (induction sc arbitrary: l) (simp_all add: seg_dist_least_upd projection_dist_def least_upd_nan assms)

section \<open>The closest distance\<close>

text \<open>
  Claim C1. For a track built by the constructor from finite waypoint coordinates, a
  finite query point, a lookup that returns the index \<open>idx\<close> of a waypoint and a distance
  function that gives no NaN on finite coordinates, \<^verbatim>\<open>get_closest_dist\<close> returns
  the least of the distance to waypoint \<open>idx\<close> and the distances to the projections, on
  the segments adjacent to waypoint \<open>idx\<close> (\<open>segments[idx - 1]\<close> when \<open>idx > 0\<close>,
  \<open>segments[idx]\<close> when \<open>idx < N - 1\<close>), that pass the bounding-box test. So the result
  is at most the distance to waypoint \<open>idx\<close>, and equal to it when the track has no
  segments or no projection is valid.
\<close>

theorem get_closest_dist_minimum:
  assumes init: "init build lats' lons' labels' segments' td = Inr self"
    and fin: "list_all isfinite lats'" "list_all isfinite lons'" "isfinite lat" "isfinite lon"
    and q: "query (kdtree self) [lat, lon] = Inr (int idx)" and idx: "idx < length lats'"
    and hav: "\<And>a b c d. isfinite a \<Longrightarrow> isfinite b \<Longrightarrow> isfinite c \<Longrightarrow> isfinite d \<Longrightarrow> \<not> isnan (hav a b c d)"
  shows "\<exists>r. fst (get_closest_dist hav query self lat lon) = Inr r
           \<and> is_least r (nearest_dist hav self lat lon idx # segment_dists hav self lat lon idx)
           \<and> f_le r (nearest_dist hav self lat lon idx)
           \<and> (segment_dists hav self lat lon idx = [] \<longrightarrow> r = nearest_dist hav self lat lon idx)"
proof -
  note t = init_Inr [OF init]
  let ?near = "nearest_dist hav self lat lon idx"
  let ?sc = "checked_segments (segments self) idx"
  let ?ds = "candidate_dists hav lat lon ?sc"
  let ?l = "fold least_upd ?ds PInf"
  let ?r = "least_upd ?near ?l"
  have idxp: "idx < length (points self)"
    using idx t(1,4) by simp
  have pnt: "points self ! idx = (lats' ! idx, lons' ! idx)"
    using idx t(1,4) by simp
  have seglen: "length segs = length (points self) - 1" if "segments self = Some segs" for segs
    using that t(1,4,8,9) by (cases segments') auto
  have val: "fst (get_closest_dist hav query self lat lon) = Inr ?r"
    using get_closest_dist_value [of query self lat lon idx hav, OF q idxp seglen]
    by (simp add: pnt nearest_dist_def t(2,3))
  have near: "\<not> isnan ?near"
  proof -
    have "isfinite (lats' ! idx)" "isfinite (lons' ! idx)"
      using fin(1,2) idx t(1) by (simp_all add: list_all_length)
    then show ?thesis
      using hav fin(3,4) by (simp add: nearest_dist_def t(2,3))
  qed
  have segfin: "\<exists>a1 b1 a2 b2. s = line_seg (Fin a1) (Fin b1) (Fin a2) (Fin b2)" if "s \<in> set ?sc" for s
  proof (cases "segments self")
    case None
    then show ?thesis using that by (simp add: checked_segments_def)
  next
    case (Some segs)
    then have segs: "segments' \<and> segs = map (\<lambda>i. line_seg (lons' ! i) (lats' ! i) (lons' ! (i + 1)) (lats' ! (i + 1))) [0 ..< length lats' - 1]"
      using t(8,9) by (cases segments') auto
    have "length segs = length lats' - 1"
      using segs by simp
    then have "s \<in> set segs"
      using that Some idx by (auto simp: checked_segments_def split: if_splits)
    then show ?thesis
      using finite_segments [OF fin(1,2) t(1)] segs by blast
  qed
  have ds: "list_all (\<lambda>d. \<not> isnan d) ?ds"
    by (rule candidate_dists_not_nan [of hav lat lon ?sc]) (use hav fin(3,4) segfin in blast)+
  have fold: "\<not> isnan ?l" "list_all (f_le ?l) ?ds" "?l = PInf \<or> ?l \<in> set ?ds"
    using fold_least_upd [OF ds, of PInf] by simp_all
  have sets: "set (segment_dists hav self lat lon idx) = set ?ds"
    by (cases "segments self")
      (simp_all add: segment_dists_def checked_segments_def set_candidate_dists
        set_checked_segments [unfolded checked_segments_def, simplified])
  have r_le: "f_le ?r ?near" "f_le ?r ?l"
    using least_upd_le [OF near fold(1)] by simp_all
  have all: "list_all (f_le ?r) ?ds"
    using fold(2) r_le(2) f_le_trans unfolding list_all_iff by blast
  have mem: "?r = ?near \<or> ?r \<in> set ?ds"
  proof (cases "f_lt ?near ?l")
    case True
    then show ?thesis by (simp add: least_upd_def)
  next
    case False
    then have r: "?r = ?l" by (simp add: least_upd_def)
    show ?thesis
    proof (cases "?l = PInf")
      case True
      then have "?near = PInf" using False near not_f_lt_PInf by simp
      then show ?thesis using r True by simp
    next
      case False
      then show ?thesis using fold(3) r by simp
    qed
  qed
  have empty: "?r = ?near" if "segment_dists hav self lat lon idx = []"
  proof -
    have "set ?ds = {}" using sets that by simp
    then show ?thesis using mem by simp
  qed
  have "is_least ?r (?near # segment_dists hav self lat lon idx)"
    unfolding is_least_def using mem all r_le(1) sets by (simp add: list_all_iff)
  then show ?thesis
    using val r_le(1) empty by blast
qed

theorem get_closest_dist_minimum_witness:
  "init KDTree [Fin 0, Fin 0] [Fin 0, Fin 1] None True (Fin 500) = Inr two_point_track
   \<and> kdtree_query (kdtree two_point_track) [Fin 0, Fin 0] = Inr 0
   \<and> fst (get_closest_dist (haversine 6371000) kdtree_query two_point_track (Fin 0) (Fin 0)) = Inr (Fin 0)
   \<and> is_least (Fin 0) (nearest_dist (haversine 6371000) two_point_track (Fin 0) (Fin 0) 0
                        # segment_dists (haversine 6371000) two_point_track (Fin 0) (Fin 0) 0)"
proof -
  have v: "fst (get_closest_dist (haversine 6371000) kdtree_query two_point_track (Fin 0) (Fin 0)) = Inr (Fin 0)"
    by (simp add: get_closest_dist_def two_point_track_def kdtree_query_def enumerate_eq_zip
        seg_check_def seg_check_indices_def np_index_def seg_dist_def intersection_info_def
        line_seg_def valid_point_def f_ne_def f_sub_def radians_def)
  show ?thesis
    using get_closest_dist_minimum [where build = KDTree and lats' = "[Fin 0, Fin 0]"
        and lons' = "[Fin 0, Fin 1]" and labels' = None and segments' = True and td = "Fin 500"
        and self = two_point_track and query = kdtree_query and lat = "Fin 0" and lon = "Fin 0"
        and idx = 0 and hav = "haversine 6371000"]
      init_two_point_track query_two_point_track v haversine_not_nan
    by simp
qed

text \<open>
  Claim C9. For a track built with segments over \<open>N \<ge> 1\<close> waypoints and a lookup that
  returns the index of a waypoint, every index at which \<^verbatim>\<open>get_closest_dist\<close> reads
  the segment array lies in \<open>[0, N - 2]\<close>, inside the array of \<open>N - 1\<close> segments, and the
  call returns a value (no exception). A track of a single waypoint has an empty segment
  array, and the call returns the distance to that waypoint (when this distance is not
  NaN).
\<close>

theorem get_closest_dist_segment_access:
  assumes init: "init build lats' lons' labels' True td = Inr self"
    and q: "query (kdtree self) [lat, lon] = Inr (int idx)" and idx: "idx < length lats'"
  shows "(\<exists>segs. segments self = Some segs \<and> int (length segs) = int (length lats') - 1
            \<and> list_all (\<lambda>i. 0 \<le> i \<and> i \<le> int (length lats') - 2 \<and> i < int (length segs))
                 (seg_check_indices (length (points self)) (int idx)))
         \<and> (\<exists>r. fst (get_closest_dist hav query self lat lon) = Inr r)
         \<and> (length lats' = 1 \<and> \<not> isnan (hav lat (lats' ! 0) lon (lons' ! 0)) \<longrightarrow>
              segments self = Some []
              \<and> fst (get_closest_dist hav query self lat lon) = Inr (hav lat (lats' ! 0) lon (lons' ! 0)))"
proof -
  note t = init_Inr [OF init]
  obtain segs where segs: "segments self = Some segs" "length segs = length lats' - 1" "lats' \<noteq> []"
    using t(8) by simp
  have idxp: "idx < length (points self)"
    using idx t(1,4) by simp
  have seglen: "length sg = length (points self) - 1" if "segments self = Some sg" for sg
    using that segs t(1,4) by simp
  have val: "fst (get_closest_dist hav query self lat lon) =
           Inr (least_upd (hav lat (fst (points self ! idx)) lon (snd (points self ! idx)))
                  (fold least_upd
                     (candidate_dists hav lat lon (checked_segments (segments self) idx)) PInf))"
    using get_closest_dist_value [of query self lat lon idx hav, OF q idxp seglen] .
  have acc: "list_all (\<lambda>i. 0 \<le> i \<and> i \<le> int (length lats') - 2 \<and> i < int (length segs))
               (seg_check_indices (length (points self)) (int idx))"
    using idx segs(2,3) t(1,4) by (auto simp: seg_check_indices_def)
  have one: "segments self = Some []
      \<and> fst (get_closest_dist hav query self lat lon) = Inr (hav lat (lats' ! 0) lon (lons' ! 0))"
    if one: "length lats' = 1" and nn: "\<not> isnan (hav lat (lats' ! 0) lon (lons' ! 0))"
  proof -
    have i0: "idx = 0" using idx one by simp
    have e: "segs = []" using segs(2) one by simp
    have p: "points self ! 0 = (lats' ! 0, lons' ! 0)"
      using one t(1,4) by simp
    have "least_upd (hav lat (lats' ! 0) lon (lons' ! 0)) PInf = hav lat (lats' ! 0) lon (lons' ! 0)"
      using not_f_lt_PInf [OF _ nn] by (auto simp: least_upd_def)
    then show ?thesis
      using val segs(1) by (simp add: i0 e p checked_segments_def candidate_dists_def)
  qed
  show ?thesis
    using segs(1,2,3) acc val one by (auto simp: Suc_leI)
qed

theorem get_closest_dist_segment_access_witness:
  "init KDTree [Fin 0] [Fin 0] None True (Fin 500) = Inr one_point_track
   \<and> kdtree_query (kdtree one_point_track) [Fin 1, Fin 1] = Inr 0
   \<and> segments one_point_track = Some []
   \<and> seg_check_indices (length (points one_point_track)) 0 = []
   \<and> fst (get_closest_dist (haversine 6371000) kdtree_query one_point_track (Fin 1) (Fin 1))
       = Inr (haversine 6371000 (Fin 1) (Fin 0) (Fin 1) (Fin 0))"
  using get_closest_dist_segment_access [where build = KDTree and lats' = "[Fin 0]"
      and lons' = "[Fin 0]" and labels' = None and td = "Fin 500" and self = one_point_track
      and query = kdtree_query and lat = "Fin 1" and lon = "Fin 1" and idx = 0
      and hav = "haversine 6371000"]
    init_one_point_track query_one_point_track
  by (simp add: seg_check_indices_def one_point_track_def)

section \<open>Counting the positions near each waypoint\<close>

lemma count_near_points_enum:
  assumes "k + length pts \<le> length counts"
  shows "\<exists>cs. count_near_points hav td p (enumerate k pts) counts = Inr cs
           \<and> length cs = length counts
           \<and> (\<forall>j < length counts. cs ! j = counts ! j
                 + (if k \<le> j \<and> j < k + length pts \<and> is_near hav td (pts ! (j - k)) p then 1 else 0))"
  using assms
proof (induction pts arbitrary: k counts)
  case Nil
  then show ?case by simp
next
  case (Cons pt pts)
  let ?c = "if is_near hav td pt p then counts[k := counts ! k + 1] else counts"
  have k: "k < length counts" using Cons.prems by simp
  have step: "count_near_points hav td p (enumerate k (pt # pts)) counts
                = count_near_points hav td p (enumerate (Suc k) pts) ?c"
    using k by (simp add: is_near_def)
  have "Suc k + length pts \<le> length ?c" using Cons.prems by simp
  from Cons.IH [OF this] obtain cs where cs:
    "count_near_points hav td p (enumerate (Suc k) pts) ?c = Inr cs"
    "length cs = length ?c"
    "\<forall>j < length ?c. cs ! j = ?c ! j
        + (if Suc k \<le> j \<and> j < Suc k + length pts \<and> is_near hav td (pts ! (j - Suc k)) p then 1 else 0)"
    by blast
  have "cs ! j = counts ! j
          + (if k \<le> j \<and> j < k + length (pt # pts) \<and> is_near hav td ((pt # pts) ! (j - k)) p then 1 else 0)"
    if j: "j < length counts" for j
  proof (cases "j = k")
    case True
    then show ?thesis using cs(3) j by simp
  next
    case False
    then have "(pt # pts) ! (j - k) = pts ! (j - Suc k)" if "k \<le> j"
      using that by (simp add: nth_Cons')
    then show ?thesis using cs(3) j False by (auto simp: nth_list_update)
  qed
  then show ?case using step cs(1,2) by simp
qed

lemma count_near_batch_counts:
  assumes "length pts = length counts"
  shows "\<exists>cs. count_near_batch hav td pts ps counts = Inr cs
           \<and> length cs = length counts
           \<and> (\<forall>j < length counts. cs ! j = counts ! j + near_count hav td ps (pts ! j))"
  using assms
proof (induction ps arbitrary: counts)
  case Nil
  then show ?case by (simp add: near_count_def)
next
  case (Cons p ps)
  obtain c1 where c1: "count_near_points hav td p (enumerate 0 pts) counts = Inr c1"
    "length c1 = length counts"
    "\<forall>j < length counts. c1 ! j = counts ! j + (if is_near hav td (pts ! j) p then 1 else 0)"
    using count_near_points_enum [of 0 pts counts hav td p] Cons.prems by auto
  have "length pts = length c1" using c1(2) Cons.prems by simp
  from Cons.IH [OF this] obtain cs where cs:
    "count_near_batch hav td pts ps c1 = Inr cs" "length cs = length c1"
    "\<forall>j < length c1. cs ! j = c1 ! j + near_count hav td ps (pts ! j)"
    by blast
  have "cs ! j = counts ! j + near_count hav td (p # ps) (pts ! j)" if "j < length counts" for j
    using cs(3) c1(2,3) that by (simp add: near_count_def)
  then show ?case using c1(1,2) cs(1,2) by simp
qed

lemma count_near_value:
  assumes "length (points self) = length (lats self)"
  shows "fst (count_near hav self p_lats p_lons)
           = Inr (map (near_count hav (track_dist self) (zip p_lats p_lons)) (points self))"
proof -
  let ?z = "replicate (length (lats self)) (0::int)"
  obtain cs where cs:
    "count_near_batch hav (track_dist self) (points self) (zip p_lats p_lons) ?z = Inr cs"
    "length cs = length ?z"
    "\<forall>j < length ?z. cs ! j = ?z ! j + near_count hav (track_dist self) (zip p_lats p_lons) (points self ! j)"
    using count_near_batch_counts [of "points self" ?z hav "track_dist self" "zip p_lats p_lons"] assms
    by auto
  have "cs = map (near_count hav (track_dist self) (zip p_lats p_lons)) (points self)"
    using cs(2,3) assms by (intro nth_equalityI) simp_all
  then show ?thesis using cs(1) by (simp add: count_near_def)
qed

text \<open>
  Claim C2. For a track of \<open>N\<close> waypoints with threshold \<open>td\<close> and a batch of positions,
  \<^verbatim>\<open>count_near\<close> returns a sequence of exactly \<open>N\<close> integers, none negative, whose
  entry \<open>i\<close> is the number of positions of the batch at a distance at most \<open>td\<close> from
  waypoint \<open>i\<close>.
\<close>

theorem count_near_counts:
  assumes init: "init build lats' lons' labels' segments' td = Inr self"
  shows "\<exists>counts. fst (count_near hav self p_lats p_lons) = Inr counts
           \<and> length counts = length lats'
           \<and> (\<forall>i < length lats'.
                 counts ! i = near_count hav td (zip p_lats p_lons) (lats' ! i, lons' ! i)
                 \<and> 0 \<le> counts ! i)"
proof -
  note t = init_Inr [OF init]
  have len: "length (points self) = length (lats self)"
    using t(1,2,4) by simp
  have "fst (count_near hav self p_lats p_lons)
          = Inr (map (near_count hav td (zip p_lats p_lons)) (zip lats' lons'))"
    using count_near_value [OF len] t(4,6) by simp
  then show ?thesis
    using t(1) by (simp add: near_count_def)
qed

theorem count_near_counts_witness:
  "init KDTree [Fin 0, Fin 0] [Fin 0, Fin 1] None True (Fin 500) = Inr two_point_track
   \<and> fst (count_near (haversine 6371000) two_point_track [Fin 0, NaN] [Fin 0, Fin 0]) = Inr [1, 0]
   \<and> near_count (haversine 6371000) (Fin 500) (zip [Fin 0, NaN] [Fin 0, Fin 0]) (Fin 0, Fin 0) = 1
   \<and> near_count (haversine 6371000) (Fin 500) (zip [Fin 0, NaN] [Fin 0, Fin 0]) (Fin 0, Fin 1) = 0"
proof -
  have far: "\<not> (6371000 * pi / 180 \<le> (500::real))"
    using pi_ge_two by simp
  have n0: "near_count (haversine 6371000) (Fin 500) (zip [Fin 0, NaN] [Fin 0, Fin 0]) (Fin 0, Fin 0) = 1"
    by (simp add: near_count_def is_near_def haversine_same del: haversine.simps(1))
  have n1: "near_count (haversine 6371000) (Fin 500) (zip [Fin 0, NaN] [Fin 0, Fin 0]) (Fin 0, Fin 1) = 0"
    using far by (simp add: near_count_def is_near_def haversine_one_degree del: haversine.simps(1))
  obtain counts where c:
    "fst (count_near (haversine 6371000) two_point_track [Fin 0, NaN] [Fin 0, Fin 0]) = Inr counts"
    "length counts = 2"
    "\<forall>i < 2. counts ! i = near_count (haversine 6371000) (Fin 500) (zip [Fin 0, NaN] [Fin 0, Fin 0])
                             ([Fin 0, Fin 0] ! i, [Fin 0, Fin 1] ! i)"
    using count_near_counts [OF init_two_point_track, of "haversine 6371000" "[Fin 0, NaN]" "[Fin 0, Fin 0]"]
    by auto
  have "counts ! 0 = 1" "counts ! 1 = 0"
    using c(3) n0 n1 by simp_all
  then have "counts = [1, 0]"
    using c(2) by (intro nth_equalityI) (auto simp: less_Suc_eq numeral_2_eq_2)
  then show ?thesis
    using init_two_point_track c(1) n0 n1 by simp
qed

text \<open>
  Claim C10. Every entry of the sequence returned by \<^verbatim>\<open>count_near\<close> is at most the
  number \<open>M\<close> of positions of the batch, the sequence has length \<open>N\<close> whatever \<open>M\<close> is, and
  for an empty batch all counts are 0.
\<close>

theorem count_near_bounds:
  assumes init: "init build lats' lons' labels' segments' td = Inr self"
  shows "\<exists>counts. fst (count_near hav self p_lats p_lons) = Inr counts
           \<and> length counts = length lats'
           \<and> list_all (\<lambda>c. 0 \<le> c \<and> c \<le> int (length (zip p_lats p_lons))) counts
           \<and> (zip p_lats p_lons = [] \<longrightarrow> counts = replicate (length lats') 0)"
proof -
  note t = init_Inr [OF init]
  let ?ps = "zip p_lats p_lons"
  let ?cs = "map (near_count hav td ?ps) (zip lats' lons')"
  have len: "length (points self) = length (lats self)"
    using t(1,2,4) by simp
  have v: "fst (count_near hav self p_lats p_lons) = Inr ?cs"
    using count_near_value [OF len] t(4,6) by simp
  have b: "list_all (\<lambda>c. 0 \<le> c \<and> c \<le> int (length ?ps)) ?cs"
    by (simp add: list_all_iff near_count_def del: length_zip)
  have e: "?cs = replicate (length lats') 0" if "?ps = []"
  proof -
    have "near_count hav td ?ps = (\<lambda>c. 0)"
      unfolding that by (simp add: near_count_def fun_eq_iff)
    then show ?thesis
      using t(1) by (simp add: map_replicate_const)
  qed
  have l: "length ?cs = length lats'"
    using t(1) by simp
  show ?thesis
    using v b e l by blast
qed

theorem count_near_bounds_witness:
  "init KDTree [Fin 0, Fin 0] [Fin 0, Fin 1] None True (Fin 500) = Inr two_point_track
   \<and> fst (count_near (haversine 6371000) two_point_track [] []) = Inr [0, 0]
   \<and> (\<exists>counts. fst (count_near (haversine 6371000) two_point_track [Fin 0, NaN, Fin 3] [Fin 0, Fin 0, Fin 7])
                   = Inr counts
        \<and> length counts = 2 \<and> list_all (\<lambda>c. 0 \<le> c \<and> c \<le> 3) counts)"
  using count_near_bounds [OF init_two_point_track, of "haversine 6371000" "[]" "[]"]
    count_near_bounds [OF init_two_point_track, of "haversine 6371000" "[Fin 0, NaN, Fin 3]" "[Fin 0, Fin 0, Fin 7]"]
    init_two_point_track
  by (auto simp: numeral_2_eq_2)

section \<open>The queries and the state of the track\<close>

text \<open>
  Claim C8. The queries \<^verbatim>\<open>get_closest_dist\<close> and \<^verbatim>\<open>count_near\<close> leave the track
  as they found it, in every component (\<open>lats\<close>, \<open>lons\<close>, \<open>points\<close>, \<open>labels\<close>, \<open>segments\<close>,
  the index, the threshold), also when they raise: they only return computed values.
\<close>

theorem queries_leave_track_unchanged:
  "snd (get_closest_dist hav query self lat lon) = self
   \<and> snd (count_near hav self p_lats p_lons) = self"
  by (simp add: get_closest_dist_def count_near_def)

section \<open>Queries with NaN coordinates\<close>

text \<open>
  The statement "a query whose latitude (or longitude) is NaN returns NaN and never
  raises" fails at the track of the waypoints \<open>(0, 0)\<close> and \<open>(0, 1)\<close> with the query
  latitude NaN: with the index of the current library the lookup raises ValueError; with
  a lookup that answers a waypoint index the result is \<open>+inf\<close>; with a lookup that
  answers the index \<open>N\<close> (no neighbour) the array access raises IndexError.
\<close>

theorem get_closest_dist_nan_counterexample:
  "fst (get_closest_dist (haversine 6371000) kdtree_query two_point_track NaN (Fin 0))
     = Inl (ValueError ''x must be finite, check for nan or inf values'')
   \<and> fst (get_closest_dist (haversine 6371000) (\<lambda>k x. Inr 0) two_point_track NaN (Fin 0)) = Inr PInf
   \<and> fst (get_closest_dist (haversine 6371000) (\<lambda>k x. Inr 2) two_point_track NaN (Fin 0)) = Inl IndexError"
  by (simp add: get_closest_dist_def kdtree_query_def two_point_track_def seg_check_def
      seg_check_indices_def np_index_def seg_dist_def intersection_info_def line_seg_def
      valid_point_def f_ne_def f_sub_def)

text \<open>
  Claim C3, as the code has it. For a query whose latitude or longitude is NaN, and a
  distance function that gives NaN on it, \<^verbatim>\<open>get_closest_dist\<close> never returns NaN:
  it raises what the lookup or an array access raises, and otherwise returns \<open>+inf\<close>,
  the initial \<open>least_dist\<close>, because \<open>NaN < least_dist\<close> is false. An exception of
  the lookup reaches the caller.
\<close>

theorem get_closest_dist_nan_query:
  assumes nan: "isnan lat \<or> isnan lon"
    and hav: "\<And>a b c d. isnan a \<or> isnan c \<Longrightarrow> isnan (hav a b c d)"
  shows "fst (get_closest_dist hav query self lat lon) \<noteq> Inr NaN
         \<and> ((\<exists>e. fst (get_closest_dist hav query self lat lon) = Inl e)
              \<or> fst (get_closest_dist hav query self lat lon) = Inr PInf)
         \<and> (\<forall>e. query (kdtree self) [lat, lon] = Inl e
                \<longrightarrow> fst (get_closest_dist hav query self lat lon) = Inl e)"
proof -
  have h: "isnan (hav lat b lon d)" for b d
    using hav nan by blast
  have f: "fold (seg_dist hav lat lon) sc PInf = PInf" for sc
    using fold_seg_dist_nan [of hav lat lon] h by blast
  have u: "(if f_lt (hav lat b lon d) PInf then hav lat b lon d else PInf) = PInf" for b d
    using least_upd_nan [OF h, of b d PInf] by (simp add: least_upd_def)
  have "(\<exists>e. fst (get_closest_dist hav query self lat lon) = Inl e)
          \<or> fst (get_closest_dist hav query self lat lon) = Inr PInf"
    by (auto simp: get_closest_dist_def f u map_sum_def split: sum.splits option.splits)
  moreover have "fst (get_closest_dist hav query self lat lon) = Inl e"
    if "query (kdtree self) [lat, lon] = Inl e" for e
    using that by (simp add: get_closest_dist_def)
  ultimately show ?thesis by auto
qed

theorem get_closest_dist_nan_query_witness:
  "isnan NaN
   \<and> fst (get_closest_dist (haversine 6371000) kdtree_query two_point_track NaN (Fin 0))
       = Inl (ValueError ''x must be finite, check for nan or inf values'')
   \<and> fst (get_closest_dist (haversine 6371000) (\<lambda>k x. Inr 1) two_point_track (Fin 0) NaN) = Inr PInf"
proof -
  have a: "kdtree_query (kdtree two_point_track) [NaN, Fin 0]
             = Inl (ValueError ''x must be finite, check for nan or inf values'')"
    by (simp add: kdtree_query_def)
  have b: "\<not> (\<exists>e. fst (get_closest_dist (haversine 6371000) (\<lambda>k x. Inr 1) two_point_track (Fin 0) NaN) = Inl e)"
    by (simp add: get_closest_dist_def two_point_track_def seg_check_def seg_check_indices_def
        np_index_def)
  show ?thesis
    using get_closest_dist_nan_query [where lat = NaN and lon = "Fin 0" and hav = "haversine 6371000"
        and query = kdtree_query and self = two_point_track]
      get_closest_dist_nan_query [where lat = "Fin 0" and lon = NaN and hav = "haversine 6371000"
        and query = "\<lambda>k x. Inr 1" and self = two_point_track]
      haversine_nan a b
    by simp
qed

section \<open>The constructor\<close>

text \<open>
  The statement "constructing a track from an empty waypoint sequence is rejected, for
  every combination of the options" fails for no labels and no segments, with an index
  constructor that accepts an empty point set (as the current library does): the
  constructor returns a track of no waypoints.
\<close>

theorem init_empty_counterexample:
  "init KDTree [] [] None False (Fin 0) = Inr empty_track"
  by (simp add: init_def np_array_T_def KDTree_def empty_track_def)

text \<open>
  Claim C4, as the code has it. The constructor has no check of its own for an empty
  waypoint sequence. From empty \<open>lats\<close> and \<open>lons\<close> it raises when segments are requested
  (the segment array would have length \<open>-1\<close>), when the index constructor raises on the
  empty point set, and when a non-empty label sequence is given; with segments disabled,
  labels absent or empty and an index constructor that accepts the empty set, it returns
  a track of no waypoints.
\<close>

theorem init_empty:
  "(\<exists>e. init build [] [] labels' True td = Inl e)
   \<and> (\<forall>e. build [] = Inl e \<longrightarrow> init build [] [] labels' segments' td = Inl e)
   \<and> (\<forall>ls. labels' = Some ls \<and> ls \<noteq> [] \<longrightarrow> (\<exists>e. init build [] [] labels' segments' td = Inl e))
   \<and> (\<forall>k. build [] = Inr k \<and> (labels' = None \<or> labels' = Some []) \<longrightarrow>
          init build [] [] labels' False td
            = Inr \<lparr> lats = [], lons = [], points = [], kdtree = k, labels = labels',
                    segments = None, track_dist = td \<rparr>)"
  by (auto simp: init_def np_array_T_def make_segments_def split: sum.splits option.splits)

theorem init_empty_witness:
  "(\<exists>e. init KDTree [] [] None True (Fin 0) = Inl e)
   \<and> init (\<lambda>data. if data = [] then Inl (ValueError ''empty'') else KDTree data) [] [] None False (Fin 0)
       = Inl (ValueError ''empty'')
   \<and> (\<exists>e. init KDTree [] [] (Some [''a'']) False (Fin 0) = Inl e)
   \<and> init KDTree [] [] (Some []) False (Fin 0)
       = Inr \<lparr> lats = [], lons = [], points = [], kdtree = [], labels = Some [],
               segments = None, track_dist = Fin 0 \<rparr>"
  using init_empty [where build = KDTree and labels' = None and td = "Fin 0" and segments' = False]
    init_empty [where build = "\<lambda>data. if data = [] then Inl (ValueError ''empty'') else KDTree data"
      and labels' = None and td = "Fin 0" and segments' = False]
    init_empty [where build = KDTree and labels' = "Some [''a'']" and td = "Fin 0" and segments' = False]
    init_empty [where build = KDTree and labels' = "Some []" and td = "Fin 0" and segments' = False]
  by (simp add: KDTree_def)

text \<open>
  Claim C7. A label sequence whose length differs from the number of waypoints makes
  the constructor raise (the ValueError of the label check, when the array and the index
  were built); with no labels, or labels of the right length, the label check raises
  nothing: the constructor does what it does without labels, and stores the labels.
\<close>

theorem init_labels:
  "(labels' = Some ls \<and> length ls \<noteq> length lats' \<longrightarrow>
      (\<exists>e. init build lats' lons' labels' segments' td = Inl e)
      \<and> (\<forall>k. length lats' = length lons' \<and> build (zip lats' lons') = Inr k \<longrightarrow>
            init build lats' lons' labels' segments' td
              = Inl (ValueError ''Labels must be the same length as lats/lons'')))
   \<and> (labels' = None \<or> (\<exists>ls. labels' = Some ls \<and> length ls = length lats') \<longrightarrow>
        init build lats' lons' labels' segments' td
          = map_sum id (\<lambda>t. t \<lparr> labels := labels' \<rparr>) (init build lats' lons' None segments' td))"
  by (auto simp: init_def np_array_T_def split: sum.splits option.splits)

theorem init_labels_witness:
  "init KDTree [Fin 0, Fin 0, Fin 0] [Fin 0, Fin 1, Fin 2] (Some [''a'', ''b'']) False (Fin 0)
     = Inl (ValueError ''Labels must be the same length as lats/lons'')
   \<and> init KDTree [Fin 0, Fin 0] [Fin 0, Fin 1] (Some [''a'', ''b'']) True (Fin 500)
       = Inr (two_point_track \<lparr> labels := Some [''a'', ''b''] \<rparr>)
   \<and> init KDTree [Fin 0, Fin 0] [Fin 0, Fin 1] None True (Fin 500) = Inr two_point_track"
  using init_labels [where labels' = "Some [''a'', ''b'']" and ls = "[''a'', ''b'']"
      and lats' = "[Fin 0, Fin 0, Fin 0]" and build = KDTree and lons' = "[Fin 0, Fin 1, Fin 2]"
      and segments' = False and td = "Fin 0"]
    init_labels [where labels' = "Some [''a'', ''b'']" and ls = "[''a'', ''b'']"
      and lats' = "[Fin 0, Fin 0]" and build = KDTree and lons' = "[Fin 0, Fin 1]"
      and segments' = True and td = "Fin 500"]
    init_two_point_track
  by (simp add: KDTree_def)

text \<open>
  Claim C6. For finite endpoints \<^verbatim>\<open>line_seg\<close> gives the domain
  \<open>(min x1 x2, max x1 x2)\<close>, the range \<open>(min y1 y2, max y1 y2)\<close> and the slope
  \<open>(y1 - y2) / (x1 - x2)\<close> when \<open>x1 \<noteq> x2\<close>, NaN (the mark of a vertical segment)
  otherwise. A track of \<open>N\<close> waypoints built with segments has exactly \<open>N - 1\<close> segments,
  segment \<open>i\<close> from waypoint \<open>i\<close> to waypoint \<open>i + 1\<close>; built without, it has none.
\<close>

theorem line_seg_and_segments:
  "dom_seg (line_seg (Fin xa) (Fin ya) (Fin xb) (Fin yb)) = (Fin (min xa xb), Fin (max xa xb))
   \<and> rng (line_seg (Fin xa) (Fin ya) (Fin xb) (Fin yb)) = (Fin (min ya yb), Fin (max ya yb))
   \<and> slope (line_seg (Fin xa) (Fin ya) (Fin xb) (Fin yb))
       = (if xa \<noteq> xb then Fin ((ya - yb) / (xa - xb)) else NaN)
   \<and> (init build lats' lons' labels' True td = Inr self \<longrightarrow>
         (\<exists>segs. segments self = Some segs \<and> int (length segs) = int (length lats') - 1
            \<and> (\<forall>i < length segs.
                  segs ! i = line_seg (lons' ! i) (lats' ! i) (lons' ! (i + 1)) (lats' ! (i + 1)))))
   \<and> (init build lats' lons' labels' False td = Inr self \<longrightarrow> segments self = None)"
proof -
  have a: "\<exists>segs. segments self = Some segs \<and> int (length segs) = int (length lats') - 1
            \<and> (\<forall>i < length segs.
                  segs ! i = line_seg (lons' ! i) (lats' ! i) (lons' ! (i + 1)) (lats' ! (i + 1)))"
    if "init build lats' lons' labels' True td = Inr self"
    using init_Inr(8) [OF that] by (auto simp: Suc_leI)
  have b: "segments self = None" if "init build lats' lons' labels' False td = Inr self"
    using init_Inr(9) [OF that] by simp
  show ?thesis
    using a b by (simp add: line_seg_def f_ne_def f_sub_def min_def max_def)
qed

theorem line_seg_and_segments_witness:
  "slope (line_seg (Fin 0) (Fin 0) (Fin 2) (Fin 1)) = Fin (1 / 2)
   \<and> dom_seg (line_seg (Fin 2) (Fin 1) (Fin 0) (Fin 0)) = (Fin 0, Fin 2)
   \<and> rng (line_seg (Fin 2) (Fin 1) (Fin 0) (Fin 0)) = (Fin 0, Fin 1)
   \<and> slope (line_seg (Fin 2) (Fin 1) (Fin 2) (Fin 0)) = NaN
   \<and> init KDTree [Fin 0, Fin 0] [Fin 0, Fin 1] None True (Fin 500) = Inr two_point_track
   \<and> segments two_point_track = Some [line_seg (Fin 0) (Fin 0) (Fin 1) (Fin 0)]
   \<and> (\<exists>t. init KDTree [Fin 0, Fin 0] [Fin 0, Fin 1] None False (Fin 500) = Inr t \<and> segments t = None)"
proof -
  have f: "init KDTree [Fin 0, Fin 0] [Fin 0, Fin 1] None False (Fin 500)
             = Inr (two_point_track \<lparr> segments := None \<rparr>)"
    by (simp add: init_def np_array_T_def KDTree_def two_point_track_def)
  show ?thesis
    using line_seg_and_segments [where xa = 0 and ya = 0 and xb = 2 and yb = 1 and build = KDTree
        and lats' = "[Fin 0, Fin 0]" and lons' = "[Fin 0, Fin 1]" and labels' = None
        and td = "Fin 500" and self = two_point_track]
      line_seg_and_segments [where xa = 2 and ya = 1 and xb = 0 and yb = 0 and build = KDTree
        and lats' = "[Fin 0, Fin 0]" and lons' = "[Fin 0, Fin 1]" and labels' = None
        and td = "Fin 500" and self = "two_point_track \<lparr> segments := None \<rparr>"]
      line_seg_and_segments [where xa = 2 and ya = 1 and xb = 2 and yb = 0 and build = KDTree
        and lats' = "[Fin 0, Fin 0]" and lons' = "[Fin 0, Fin 1]" and labels' = None
        and td = "Fin 500" and self = two_point_track]
      init_two_point_track f
    by (simp add: two_point_track_def)
qed

section \<open>The projection on a segment\<close>

text \<open>
  Claim C5. \<^verbatim>\<open>intersection_info\<close> is \<open>projectPoint\<close>: \<open>(x1, y)\<close> on a vertical
  segment, \<open>(x, y1)\<close> on a segment of slope exactly 0, and otherwise the point
  \<open>(xi, yi)\<close> of the formula with \<open>m_perp = -1/m\<close>, \<open>delta_m = m_perp - m\<close>,
  \<open>delta_intercept = (m * (-x1) + y1) - (m_perp * (-x) + y)\<close>,
  \<open>xi = delta_intercept / delta_m\<close>, \<open>yi = m_perp * (xi - x) + y\<close>. A segment made by
  \<^verbatim>\<open>line_seg\<close> from finite endpoints is vertical exactly when its endpoints have
  equal longitudes.
\<close>

theorem intersection_info_projectPoint:
  "intersection_info x y seg = projectPoint x y seg
   \<and> (vertical (line_seg (Fin xa) (Fin ya) (Fin xb) (Fin yb)) \<longleftrightarrow> xa = xb)
   \<and> (vertical seg \<longrightarrow> intersection_info x y seg = (x1 seg, y))
   \<and> (\<not> vertical seg \<and> slope seg = Fin 0 \<longrightarrow> intersection_info x y seg = (x, y1 seg))"
  by (simp add: intersection_info_def projectPoint_def vertical_def Let_def line_seg_def
      f_ne_def f_sub_def)

theorem intersection_info_projectPoint_witness:
  "vertical (line_seg (Fin 1) (Fin 0) (Fin 1) (Fin 2))
   \<and> intersection_info (Fin 3) (Fin 1) (line_seg (Fin 1) (Fin 0) (Fin 1) (Fin 2)) = (Fin 1, Fin 1)
   \<and> slope (line_seg (Fin 0) (Fin 5) (Fin 2) (Fin 5)) = Fin 0
   \<and> intersection_info (Fin 1) (Fin 7) (line_seg (Fin 0) (Fin 5) (Fin 2) (Fin 5)) = (Fin 1, Fin 5)
   \<and> intersection_info (Fin 0) (Fin 2) (line_seg (Fin 0) (Fin 0) (Fin 2) (Fin 2)) = (Fin 1, Fin 1)
   \<and> projectPoint (Fin 0) (Fin 2) (line_seg (Fin 0) (Fin 0) (Fin 2) (Fin 2)) = (Fin 1, Fin 1)"
  using intersection_info_projectPoint [where x = "Fin 3" and y = "Fin 1"
      and seg = "line_seg (Fin 1) (Fin 0) (Fin 1) (Fin 2)" and xa = 1 and ya = 0 and xb = 1 and yb = 2]
    intersection_info_projectPoint [where x = "Fin 1" and y = "Fin 7"
      and seg = "line_seg (Fin 0) (Fin 5) (Fin 2) (Fin 5)" and xa = 0 and ya = 5 and xb = 2 and yb = 5]
    intersection_info_projectPoint [where x = "Fin 0" and y = "Fin 2"
      and seg = "line_seg (Fin 0) (Fin 0) (Fin 2) (Fin 2)" and xa = 0 and ya = 0 and xb = 2 and yb = 2]
  by (simp add: projectPoint_def vertical_def line_seg_def f_ne_def f_sub_def Let_def)

end
